theory Spec2Isabelle
  imports Main "HOL-Library.Word" "HOL-Library.Sublist"
begin

section \<open>External lexers in shared libraries (src/ExternalLexer.cxx)\<close>

text \<open>
  The file loads a shared library, asks it how many lexers it exports, and wraps each
  exported lexer in an \<open>ExternalLexerModule\<close> that is registered with the Catalogue
  and owned by a \<open>LexerLibrary\<close>.  A \<open>LexerManager\<close> singleton owns the libraries.

  The embedding keeps the three classes as records, the heap of module objects as an
  explicit store (the Catalogue and the owning library both hold the address of a
  module), and every call through a function pointer that may be null as a branch that
  ends in a fault.
\<close>

subsection \<open>Function pointers and the plugin's exported symbols\<close>

text \<open>
  An opaque code address: a lexing, folding or factory entry point.  The null pointer
  is \<open>None\<close> of the option type wrapped around it.
\<close>

datatype fnptr = FnPtr nat

type_synonym LexerFunction = "fnptr option"

type_synonym LexerFactoryFunction = "fnptr option"

text \<open>
  \<^verbatim>\<open>typedef void (*GetLexerNameFn)(unsigned int Index, char *name, int buflength)\<close>:
  the function is native code of the plugin.  It is represented by the bytes it stores
  at \<open>name[0], name[1], ...\<close> when called with \<open>Index\<close> and \<open>buflength\<close>.

  \<^verbatim>\<open>typedef LexerFactoryFunction (*GetLexerFactoryFunction)(unsigned int Index)\<close>.
\<close>

type_synonym GetLexerNameFn = "32 word \<Rightarrow> int \<Rightarrow> char list"

type_synonym GetLexerFactoryFunction = "32 word \<Rightarrow> LexerFactoryFunction"

text \<open>
  What \<open>lib->FindFunction\<close> resolves in an opened library for the three fixed names;
  \<open>None\<close> is the null pointer of a symbol that is not exported.  \<open>GetLexerCount\<close>
  takes no argument, so the function is given by the \<open>int\<close> it returns.
\<close>

record plugin =
  GetLexerCount :: "32 word option"
  GetLexerName :: "GetLexerNameFn option"
  GetLexerFactory :: "GetLexerFactoryFunction option"

text \<open>
  Modelled from the spec: \<open>DynamicLibrary\<close> is declared in Platform.h, which is not among
  the sources.  The spec's loader interface is "open-by-path returning a handle object;
  the handle exposes is-this-handle-valid and resolve-a-symbol-by-name".
  \<open>DynamicLibrary::Load(path)\<close> followed by \<open>IsValid()\<close> is passed in as a function from
  the path to the opened library, \<open>None\<close> when the handle is invalid.
\<close>

type_synonym loader = "string \<Rightarrow> plugin option"

subsection \<open>Faults\<close>

text \<open>
  The constructor of \<open>LexerLibrary\<close> has undefined behaviour in three places: a call
  through a null function pointer (lines 126 and 99), a name accessor that stores more
  than the 100 bytes of \<open>lexname\<close> (line 126), and a buffer without a terminating zero
  handed to the \<open>std::string\<close> constructor (lines 127 and 50).  \<open>InvalidPointer\<close>
  is a member access through a pointer to no live object; it keeps the functions below
  total and is never reached from \<open>Load\<close>.
\<close>

datatype fault = NullFunctionCall | BufferOverrun | UnterminatedName | InvalidPointer

subsection \<open>ExternalLexerModule\<close>

record ExternalLexerModule =
  language :: int
  fnLexer :: LexerFunction
  fnFolder :: LexerFunction
  fnFactory :: LexerFactoryFunction
  languageName :: string
  fneFactory :: "GetLexerFactoryFunction option"
  name :: string

text \<open>
  Modelled from the spec: \<open>SCLEX_AUTOMATIC\<close> is defined in SciLexer.h, which is not among
  the sources.  The spec calls it the "automatic" language-kind placeholder.  The number
  is the one of Scintilla's header; no property below depends on it.
\<close>

definition SCLEX_AUTOMATIC :: int where
  "SCLEX_AUTOMATIC = 1000"

text \<open>
  Lines 47-52.  The base constructor \<open>LexerModule(language_, fnLexer_, nullptr, fnFolder_)\<close>
  leaves \<open>fnFactory\<close> null; \<open>languageName\<close> then points at the characters of \<open>name\<close>.
  A parameter that ends in an underscore in the source ends in a prime here.
\<close>

definition new_ExternalLexerModule ::
    "int \<Rightarrow> LexerFunction \<Rightarrow> string \<Rightarrow> LexerFunction \<Rightarrow> ExternalLexerModule" where
  "new_ExternalLexerModule language' fnLexer' languageName' fnFolder' =
     \<lparr>language = language', fnLexer = fnLexer', fnFolder = fnFolder', fnFactory = None,
      languageName = languageName', fneFactory = None, name = languageName'\<rparr>"

text \<open>Lines 97-100.  The call \<open>fFactory(index)\<close> faults when \<open>fFactory\<close> is null.\<close>

definition SetExternal ::
    "GetLexerFactoryFunction option \<Rightarrow> int \<Rightarrow> ExternalLexerModule \<Rightarrow> fault + ExternalLexerModule" where
  "SetExternal fFactory index m =
     (case fFactory of
        None \<Rightarrow> Inl NullFunctionCall
      | Some f \<Rightarrow> Inr (m\<lparr>fneFactory := fFactory, fnFactory := f (word_of_int index)\<rparr>))"

subsection \<open>The state outside the manager\<close>

text \<open>
  What happens to a module, in the order it happens: \<open>Registered a\<close> is the call
  \<open>Catalogue::AddLexerModule\<close> with the module at address \<open>a\<close>, \<open>FactorySet a\<close> the
  assignment to its \<open>fnFactory\<close> in \<open>SetExternal\<close>.
\<close>

datatype event = Registered nat | FactorySet nat

text \<open>
  \<open>heap\<close> holds the live \<open>ExternalLexerModule\<close> objects by address and \<open>nextAddr\<close>
  is the address \<open>new\<close> returns next; addresses are handed out in increasing order.
  A freed address is not handed out again here, which \<open>operator new\<close> may do: the state
  after an allocation that follows a \<open>Clear\<close> is covered for fresh addresses only, and a
  pointer the Catalogue keeps to a destroyed module then stays dangling, where in the
  program it may come to point at a later module.  \<open>lexerCatalogue\<close> is the Catalogue's
  vector of module pointers.
  \<open>openHandles\<close> are the native libraries the process has open and \<open>nextHandle\<close> the
  handle the next successful open gets.  \<open>events\<close> is the log of what happened to the
  modules so far; it is no data of the program and nothing reads it, it records the
  order of the two effects for the property about that order.
\<close>

record runtime =
  heap :: "nat \<Rightarrow> ExternalLexerModule option"
  nextAddr :: nat
  lexerCatalogue :: "nat list"
  openHandles :: "nat list"
  nextHandle :: nat
  events :: "event list"

text \<open>
  Modelled from the spec: \<open>Catalogue::AddLexerModule\<close> is in Catalogue.cxx, which is not
  among the sources.  The spec's catalogue interface is "a registration call accepting
  a pointer/reference to a capability object": the pointer is appended, and nothing
  else of the catalogue changes.
\<close>

definition AddLexerModule :: "nat \<Rightarrow> runtime \<Rightarrow> runtime" where
  "AddLexerModule plm s =
     s\<lparr>lexerCatalogue := lexerCatalogue s @ [plm], events := events s @ [Registered plm]\<rparr>"

text \<open>
  \<open>lex->SetExternal(fnFactory, i)\<close> on the object at the address \<open>lex'\<close> (the pointer
  \<open>lex\<close> of the source).
\<close>

definition SetExternal_at ::
    "GetLexerFactoryFunction option \<Rightarrow> int \<Rightarrow> nat \<Rightarrow> runtime \<Rightarrow> fault + runtime" where
  "SetExternal_at fFactory index lex' s =
     (case heap s lex' of
        None \<Rightarrow> Inl InvalidPointer
      | Some m \<Rightarrow>
          (case SetExternal fFactory index m of
             Inl e \<Rightarrow> Inl e
           | Inr m' \<Rightarrow> Inr (s\<lparr>heap := (heap s)(lex' \<mapsto> m'), events := events s @ [FactorySet lex']\<rparr>)))"

subsection \<open>LexerLibrary\<close>

text \<open>
  \<open>lib\<close> is the handle of the opened native library, \<open>None\<close> for the invalid handle;
  \<open>modules\<close> are the addresses of the owned modules.
\<close>

record LexerLibrary =
  lib :: "nat option"
  modules :: "nat list"
  moduleName :: string

definition NUL :: char where
  "NUL = CHR 0x00"

text \<open>
  Lines 125-127: \<open>char lexname[100] = ""\<close> is one hundred zero bytes, the accessor
  stores \<open>written\<close> over them from the front, and the \<open>std::string\<close> constructor reads
  up to the first zero byte.
\<close>

definition read_lexname :: "char list \<Rightarrow> fault + string" where
  "read_lexname written =
     (if 100 < length written then Inl BufferOverrun
      else let lexname = written @ replicate (100 - length written) NUL in
        if NUL \<in> set lexname then Inr (takeWhile (\<lambda>c. c \<noteq> NUL) lexname)
        else Inl UnterminatedName)"

text \<open>Lines 124-137: the body of the loop for index \<open>i\<close>.\<close>

definition discover_one ::
    "GetLexerNameFn option \<Rightarrow> GetLexerFactoryFunction option \<Rightarrow> int \<Rightarrow>
     nat list \<times> runtime \<Rightarrow> fault + (nat list \<times> runtime)" where
  "discover_one GetLexerName' fnFactory' i st =
     (case GetLexerName' of
        None \<Rightarrow> Inl NullFunctionCall
      | Some gn \<Rightarrow>
          (case read_lexname (gn (word_of_int i) 100) of
             Inl e \<Rightarrow> Inl e
           | Inr lexname \<Rightarrow>
               (let s = snd st;
                    lex' = nextAddr s;
                    s1 = s\<lparr>heap := (heap s)(lex' \<mapsto>
                             new_ExternalLexerModule SCLEX_AUTOMATIC None lexname None),
                           nextAddr := Suc lex'\<rparr>;
                    s2 = AddLexerModule lex' s1;
                    modules' = fst st @ [lex']
                in case SetExternal_at fnFactory' i lex' s2 of
                     Inl e \<Rightarrow> Inl e
                   | Inr s3 \<Rightarrow> Inr (modules', s3))))"

text \<open>Line 123: \<open>for (int i = 0; i < nl; i++)\<close>.\<close>

function discover ::
    "GetLexerNameFn option \<Rightarrow> GetLexerFactoryFunction option \<Rightarrow> int \<Rightarrow> int \<Rightarrow>
     nat list \<times> runtime \<Rightarrow> fault + (nat list \<times> runtime)" where
  "discover GetLexerName' fnFactory' nl i st =
     (if i < nl then
        (case discover_one GetLexerName' fnFactory' i st of
           Inl e \<Rightarrow> Inl e
         | Inr st' \<Rightarrow> discover GetLexerName' fnFactory' nl (i + 1) st')
      else Inr st)"
  by pat_completeness auto
termination
  by (relation "measure (\<lambda>(gn, ff, nl, i, st). nat (nl - i))") auto

declare discover.simps [simp del]

text \<open>
  Lines 108-141.  A successful open gives the process one more open native library.
\<close>

definition new_LexerLibrary :: "loader \<Rightarrow> string \<Rightarrow> runtime \<Rightarrow> fault + (LexerLibrary \<times> runtime)" where
  "new_LexerLibrary os moduleName' s =
     (case os moduleName' of
        None \<Rightarrow> Inr (\<lparr>lib = None, modules = [], moduleName = []\<rparr>, s)
      | Some dl \<Rightarrow>
          (let h = nextHandle s;
               s0 = s\<lparr>openHandles := openHandles s @ [h], nextHandle := Suc h\<rparr>
           in case GetLexerCount dl of
                None \<Rightarrow> Inr (\<lparr>lib = Some h, modules = [], moduleName = moduleName'\<rparr>, s0)
              | Some nl \<Rightarrow>
                  (case discover (GetLexerName dl) (GetLexerFactory dl) (sint nl) 0 ([], s0) of
                     Inl e \<Rightarrow> Inl e
                   | Inr (ms, s') \<Rightarrow>
                       Inr (\<lparr>lib = Some h, modules = ms, moduleName = moduleName'\<rparr>, s'))))"

text \<open>
  The destructor (lines 143-144) destroys the members in reverse order of declaration:
  the owned modules, then the native library.

  Modelled from the spec: \<open>~DynamicLibrary\<close> is in the platform layer, which is not among
  the sources.  The spec's NativeModuleHandle "releases the OS resource on destruction".
  The destructor of a module leaves the Catalogue's pointer to it in place.
\<close>

definition delete_module :: "nat \<Rightarrow> runtime \<Rightarrow> runtime" where
  "delete_module a s = s\<lparr>heap := (heap s)(a := None)\<rparr>"

definition delete_DynamicLibrary :: "nat option \<Rightarrow> runtime \<Rightarrow> runtime" where
  "delete_DynamicLibrary l s =
     (case l of None \<Rightarrow> s | Some h \<Rightarrow> s\<lparr>openHandles := removeAll h (openHandles s)\<rparr>)"

definition delete_LexerLibrary :: "LexerLibrary \<Rightarrow> runtime \<Rightarrow> runtime" where
  "delete_LexerLibrary ll s = delete_DynamicLibrary (lib ll) (fold delete_module (modules ll) s)"

subsection \<open>LexerManager\<close>

record LexerManager =
  libraries :: "LexerLibrary list"

text \<open>Lines 173-176: the loop that looks for a library with the same stored name.\<close>

fun already_loaded :: "string \<Rightarrow> LexerLibrary list \<Rightarrow> bool" where
  "already_loaded path [] = False"
| "already_loaded path (ll # lls) = (if moduleName ll = path then True else already_loaded path lls)"

text \<open>Lines 172-179.\<close>

definition Load :: "loader \<Rightarrow> string \<Rightarrow> LexerManager \<times> runtime \<Rightarrow> fault + (LexerManager \<times> runtime)" where
  "Load os path st =
     (if already_loaded path (libraries (fst st)) then Inr st
      else case new_LexerLibrary os path (snd st) of
             Inl e \<Rightarrow> Inl e
           | Inr (l, s') \<Rightarrow> Inr ((fst st)\<lparr>libraries := libraries (fst st) @ [l]\<rparr>, s'))"

text \<open>Lines 181-183: \<open>libraries.clear()\<close> destroys every library.\<close>

definition Clear :: "LexerManager \<times> runtime \<Rightarrow> LexerManager \<times> runtime" where
  "Clear st = ((fst st)\<lparr>libraries := []\<rparr>, fold delete_LexerLibrary (libraries (fst st)) (snd st))"

subsection \<open>The singleton and the minder\<close>

record process =
  theInstance :: "LexerManager option"
  globals :: runtime

text \<open>Lines 153-157.\<close>

definition GetInstance :: "process \<Rightarrow> process" where
  "GetInstance p =
     (case theInstance p of
        None \<Rightarrow> p\<lparr>theInstance := Some \<lparr>libraries = []\<rparr>\<rparr>
      | Some m \<Rightarrow> p)"

text \<open>
  Lines 160-162 with the destructor of lines 168-170: \<open>theInstance.reset()\<close> destroys
  the manager, whose destructor calls \<open>Clear\<close>.
\<close>

definition DeleteInstance :: "process \<Rightarrow> process" where
  "DeleteInstance p =
     (case theInstance p of
        None \<Rightarrow> p
      | Some m \<Rightarrow> p\<lparr>theInstance := None, globals := snd (Clear (m, globals p))\<rparr>)"

text \<open>Lines 191-193.\<close>

definition delete_LMMinder :: "process \<Rightarrow> process" where
  "delete_LMMinder p = DeleteInstance p"

text \<open>Lines 201-203.\<close>

definition ExternalLexerLoad :: "loader \<Rightarrow> string \<Rightarrow> process \<Rightarrow> fault + process" where
  "ExternalLexerLoad os path p =
     (let p1 = GetInstance p in
      case theInstance p1 of
        None \<Rightarrow> Inl InvalidPointer
      | Some m \<Rightarrow>
          (case Load os path (m, globals p1) of
             Inl e \<Rightarrow> Inl e
           | Inr (m', s') \<Rightarrow> Inr (p1\<lparr>theInstance := Some m', globals := s'\<rparr>)))"

subsection \<open>What the properties below speak about\<close>

text \<open>
  The names the Catalogue can offer: the \<open>languageName\<close> of every live module it
  points at, in the order of registration.
\<close>

definition registered_names :: "runtime \<Rightarrow> string list" where
  "registered_names s = List.map_filter (\<lambda>a. map_option languageName (heap s a)) (lexerCatalogue s)"

text \<open>The number of retained libraries whose stored path is \<open>path\<close>.\<close>

definition retained_for :: "string \<Rightarrow> LexerManager \<Rightarrow> nat" where
  "retained_for path m = length (filter (\<lambda>ll. moduleName ll = path) (libraries m))"

text \<open>
  The Catalogue lists the address \<open>a\<close> and no live module is at it: the Catalogue still
  offers the capability, and a lookup that follows the pointer reads freed memory.
\<close>

definition dangling :: "runtime \<Rightarrow> nat \<Rightarrow> bool" where
  "dangling s a = (a \<in> set (lexerCatalogue s) \<and> heap s a = None)"

text \<open>\<open>x\<close> is in the log before the first \<open>y\<close>, and \<open>y\<close> is in the log.\<close>

definition happens_before :: "event \<Rightarrow> event \<Rightarrow> event list \<Rightarrow> bool" where
  "happens_before x y evs = (x \<in> set (takeWhile (\<lambda>e. e \<noteq> y) evs) \<and> y \<in> set evs)"

text \<open>
  The module that lines 127-137 leave at its address for index \<open>i\<close>, name \<open>nm\<close> and
  factory accessor \<open>f\<close>.
\<close>

definition bound_module :: "GetLexerFactoryFunction \<Rightarrow> int \<Rightarrow> string \<Rightarrow> ExternalLexerModule" where
  "bound_module f i nm =
     \<lparr>language = SCLEX_AUTOMATIC, fnLexer = None, fnFolder = None,
      fnFactory = f (word_of_int i), languageName = nm, fneFactory = Some f, name = nm\<rparr>"

text \<open>
  Modelled from the spec: the name accessor is native code of a plugin, which is not
  among the sources.  The spec's interface for it: it "takes a zero-based index, a
  writable character buffer, and the buffer's capacity; writes a null-terminated name
  into the buffer, truncated to fit".  \<open>reported\<close> gives the full name of each index.
\<close>

definition truncating_name_accessor :: "(32 word \<Rightarrow> string) \<Rightarrow> GetLexerNameFn" where
  "truncating_name_accessor reported Index buflength =
     (if buflength \<le> 0 then [] else take (nat buflength - 1) (reported Index) @ [NUL])"

subsection \<open>Concrete libraries and states\<close>

definition empty_runtime :: runtime where
  "empty_runtime =
     \<lparr>heap = (\<lambda>a. None), nextAddr = 0, lexerCatalogue = [], openHandles = [], nextHandle = 0,
      events = []\<rparr>"

definition empty_manager :: LexerManager where
  "empty_manager = \<lparr>libraries = []\<rparr>"

text \<open>The library object a failed open leaves behind.\<close>

definition failed_library :: LexerLibrary where
  "failed_library = \<lparr>lib = None, modules = [], moduleName = []\<rparr>"

text \<open>A platform on which no path opens.\<close>

definition no_library :: loader where
  "no_library path = None"

definition abc_names :: GetLexerNameFn where
  "abc_names Index buflength =
     (if Index = 0 then ''Alpha'' @ [NUL]
      else if Index = 1 then ''Beta'' @ [NUL]
      else ''Gamma'' @ [NUL])"

definition abc_factory :: GetLexerFactoryFunction where
  "abc_factory Index = Some (FnPtr (unat Index))"

definition abc_plugin :: plugin where
  "abc_plugin =
     \<lparr>GetLexerCount = Some 3, GetLexerName = Some abc_names, GetLexerFactory = Some abc_factory\<rparr>"

text \<open>A library that exports the count accessor only, and one without the factory accessor.\<close>

definition count_only_plugin :: plugin where
  "count_only_plugin = \<lparr>GetLexerCount = Some 1, GetLexerName = None, GetLexerFactory = None\<rparr>"

definition no_factory_plugin :: plugin where
  "no_factory_plugin =
     \<lparr>GetLexerCount = Some 1, GetLexerName = Some abc_names, GetLexerFactory = None\<rparr>"

text \<open>A library whose count accessor returns \<open>-1\<close>.\<close>

definition negative_plugin :: plugin where
  "negative_plugin = \<lparr>GetLexerCount = Some (- 1), GetLexerName = None, GetLexerFactory = None\<rparr>"

text \<open>A library with one lexer whose name has 150 characters.\<close>

definition long_plugin :: plugin where
  "long_plugin =
     \<lparr>GetLexerCount = Some 1,
      GetLexerName = Some (truncating_name_accessor (\<lambda>Index. replicate 150 CHR ''x'')),
      GetLexerFactory = Some abc_factory\<rparr>"

definition some_libraries :: loader where
  "some_libraries path =
     (if path = ''abc.so'' then Some abc_plugin
      else if path = ''count_only.so'' then Some count_only_plugin
      else if path = ''no_factory.so'' then Some no_factory_plugin
      else if path = ''negative.so'' then Some negative_plugin
      else if path = ''long.so'' then Some long_plugin
      else None)"

text \<open>
  The library object and the state that loading \<open>abc.so\<close> on the empty state gives
  (lemma \<open>abc_new_LexerLibrary\<close> below).
\<close>

definition abc_library :: LexerLibrary where
  "abc_library = \<lparr>lib = Some 0, modules = [0, 1, 2], moduleName = ''abc.so''\<rparr>"

definition abc_runtime :: runtime where
  "abc_runtime =
     \<lparr>heap = (\<lambda>a. if a = 0 then Some (bound_module abc_factory 0 ''Alpha'')
                   else if a = 1 then Some (bound_module abc_factory 1 ''Beta'')
                   else if a = 2 then Some (bound_module abc_factory 2 ''Gamma'')
                   else None),
      nextAddr = 3, lexerCatalogue = [0, 1, 2], openHandles = [0], nextHandle = 1,
      events = [Registered 0, FactorySet 0, Registered 1, FactorySet 1, Registered 2, FactorySet 2]\<rparr>"

text \<open>
  The process after \<open>ExternalLexerLoad\<close> of \<open>abc.so\<close>, and the state outside the manager
  after the teardown of that process (theorem \<open>teardown_leaves_dangling_entries\<close> below).
\<close>

definition abc_process :: process where
  "abc_process = \<lparr>theInstance = Some \<lparr>libraries = [abc_library]\<rparr>, globals = abc_runtime\<rparr>"

definition abc_cleared :: runtime where
  "abc_cleared =
     \<lparr>heap = (\<lambda>a. None), nextAddr = 3, lexerCatalogue = [0, 1, 2], openHandles = [],
      nextHandle = 1,
      events = [Registered 0, FactorySet 0, Registered 1, FactorySet 1, Registered 2, FactorySet 2]\<rparr>"

section \<open>Properties\<close>

subsection \<open>The duplicate check\<close>

lemma already_loaded_iff: "already_loaded path lls \<longleftrightarrow> path \<in> moduleName ` set lls"
  by (induction lls) auto

subsection \<open>One pass of the discovery loop\<close>

lemma SetExternal_at_Some:
  "heap s a = Some m \<Longrightarrow> SetExternal_at (Some f) i a s =
     Inr (s\<lparr>heap := (heap s)(a \<mapsto> m\<lparr>fneFactory := Some f, fnFactory := f (word_of_int i)\<rparr>),
               events := events s @ [FactorySet a]\<rparr>)"
  by (simp add: SetExternal_at_def SetExternal_def)

lemma SetExternal_at_None: "SetExternal_at None i a s \<noteq> Inr s'"
  by (simp add: SetExternal_at_def SetExternal_def split: option.splits)

lemma discover_one_Some:
  "read_lexname (g (word_of_int i) 100) = Inr nm \<Longrightarrow>
   discover_one (Some g) (Some f) i (ms, s) =
     Inr (ms @ [nextAddr s],
        s\<lparr>heap := (heap s)(nextAddr s \<mapsto>
                   bound_module f i nm),
               nextAddr := Suc (nextAddr s),
               lexerCatalogue := lexerCatalogue s @ [nextAddr s],
               events := events s @ [Registered (nextAddr s), FactorySet (nextAddr s)]\<rparr>)"
  by (simp add: discover_one_def Let_def SetExternal_at_Some AddLexerModule_def
        new_ExternalLexerModule_def bound_module_def)

lemma discover_one_Inr:
  assumes "discover_one gn ff i (ms, s) = Inr (ms', s')"
  shows "\<exists>g f nm. gn = Some g \<and> ff = Some f \<and> read_lexname (g (word_of_int i) 100) = Inr nm"
proof -
  from assms obtain g where g: "gn = Some g"
    by (cases gn) (simp_all add: discover_one_def)
  from assms g obtain nm where nm: "read_lexname (g (word_of_int i) 100) = Inr nm"
    by (cases "read_lexname (g (word_of_int i) 100)") (simp_all add: discover_one_def)
  from assms g nm obtain f where "ff = Some f"
    by (cases ff) (simp_all add: discover_one_def Let_def SetExternal_at_None split: sum.splits)
  with g nm show ?thesis by blast
qed

subsection \<open>The discovery loop\<close>

lemma discover_stop: "\<not> i < nl \<Longrightarrow> discover gn ff nl i st = Inr st"
  by (simp add: discover.simps)

lemma discover_step:
  "i < nl \<Longrightarrow> discover gn ff nl i st =
     (case discover_one gn ff i st of Inl e \<Rightarrow> Inl e | Inr st' \<Rightarrow> discover gn ff nl (i + 1) st')"
  by (subst discover.simps) simp

lemma discover_Inr:
  "discover gn ff nl i (ms, s) = Inr (ms', s') \<Longrightarrow> k = nat (nl - i) \<Longrightarrow>
     ms' = ms @ [nextAddr s..<nextAddr s + k] \<and>
     nextAddr s' = nextAddr s + k \<and>
     lexerCatalogue s' = lexerCatalogue s @ [nextAddr s..<nextAddr s + k] \<and>
     events s' = events s @ concat (map (\<lambda>a. [Registered a, FactorySet a]) [nextAddr s..<nextAddr s + k]) \<and>
     openHandles s' = openHandles s \<and> nextHandle s' = nextHandle s \<and>
     (\<forall>a. a < nextAddr s \<or> nextAddr s + k \<le> a \<longrightarrow> heap s' a = heap s a) \<and>
     (\<forall>j<k. \<exists>g f nm. gn = Some g \<and> ff = Some f \<and>
         read_lexname (g (word_of_int (i + int j)) 100) = Inr nm \<and>
         heap s' (nextAddr s + j) = Some (bound_module f (i + int j) nm))"
proof (induction k arbitrary: i ms s)
  case 0
  then have "\<not> i < nl" by simp
  with 0 show ?case by (simp add: discover_stop)
next
  case (Suc k)
  then have lt: "i < nl" by simp
  from Suc.prems(1) lt obtain ms1 s1 where
    one: "discover_one gn ff i (ms, s) = Inr (ms1, s1)" and
    rest: "discover gn ff nl (i + 1) (ms1, s1) = Inr (ms', s')"
    by (cases "discover_one gn ff i (ms, s)") (auto simp: discover_step)
  from discover_one_Inr [OF one] obtain g f nm where
    g: "gn = Some g" and f: "ff = Some f" and
    nm: "read_lexname (g (word_of_int i) 100) = Inr nm" by blast
  from one g f discover_one_Some [of g i nm f ms s, OF nm]
  have ms1: "ms1 = ms @ [nextAddr s]" and
    s1: "s1 = s\<lparr>heap := (heap s)(nextAddr s \<mapsto> bound_module f i nm),
               nextAddr := Suc (nextAddr s),
               lexerCatalogue := lexerCatalogue s @ [nextAddr s],
               events := events s @ [Registered (nextAddr s), FactorySet (nextAddr s)]\<rparr>"
    by simp_all
  have k: "k = nat (nl - (i + 1))" using Suc.prems(2) by simp
  from Suc.IH [OF rest k]
  have ih1: "ms' = ms1 @ [nextAddr s1..<nextAddr s1 + k]"
    and ih2: "nextAddr s' = nextAddr s1 + k"
    and ih3: "lexerCatalogue s' = lexerCatalogue s1 @ [nextAddr s1..<nextAddr s1 + k]"
    and ih4: "events s' = events s1 @
        concat (map (\<lambda>a. [Registered a, FactorySet a]) [nextAddr s1..<nextAddr s1 + k])"
    and ih5: "openHandles s' = openHandles s1" "nextHandle s' = nextHandle s1"
    and ih6: "\<forall>a. a < nextAddr s1 \<or> nextAddr s1 + k \<le> a \<longrightarrow> heap s' a = heap s1 a"
    and ih7: "\<forall>j<k. \<exists>g f nm. gn = Some g \<and> ff = Some f \<and>
         read_lexname (g (word_of_int (i + 1 + int j)) 100) = Inr nm \<and>
         heap s' (nextAddr s1 + j) = Some (bound_module f (i + 1 + int j) nm)"
    by blast+
  have a1: "nextAddr s1 = Suc (nextAddr s)" by (simp add: s1)
  have upt: "[nextAddr s..<nextAddr s + Suc k] = nextAddr s # [nextAddr s1..<nextAddr s1 + k]"
    unfolding a1 by (simp add: upt_conv_Cons)
  have c1: "ms' = ms @ [nextAddr s..<nextAddr s + Suc k]"
    unfolding upt ih1 ms1 by simp
  have c2: "nextAddr s' = nextAddr s + Suc k"
    unfolding ih2 a1 by simp
  have c3: "lexerCatalogue s' = lexerCatalogue s @ [nextAddr s..<nextAddr s + Suc k]"
    unfolding upt ih3 by (simp add: s1)
  have c4: "events s' = events s @
      concat (map (\<lambda>a. [Registered a, FactorySet a]) [nextAddr s..<nextAddr s + Suc k])"
    unfolding upt ih4 by (simp add: s1)
  have c5: "openHandles s' = openHandles s \<and> nextHandle s' = nextHandle s"
    unfolding ih5 by (simp add: s1)
  have frame: "heap s' a = heap s1 a" if "a < Suc (nextAddr s) \<or> Suc (nextAddr s) + k \<le> a" for a
    using ih6 that unfolding a1 by blast
  have c6: "\<forall>a. a < nextAddr s \<or> nextAddr s + Suc k \<le> a \<longrightarrow> heap s' a = heap s a"
  proof (intro allI impI)
    fix a assume a: "a < nextAddr s \<or> nextAddr s + Suc k \<le> a"
    then have "heap s' a = heap s1 a" by (intro frame) auto
    also have "\<dots> = heap s a" using a by (auto simp: s1)
    finally show "heap s' a = heap s a" .
  qed
  have c7: "\<forall>j<Suc k. \<exists>g f nm. gn = Some g \<and> ff = Some f \<and>
         read_lexname (g (word_of_int (i + int j)) 100) = Inr nm \<and>
         heap s' (nextAddr s + j) = Some (bound_module f (i + int j) nm)"
  proof (intro allI impI)
    fix j assume j: "j < Suc k"
    show "\<exists>g f nm. gn = Some g \<and> ff = Some f \<and>
         read_lexname (g (word_of_int (i + int j)) 100) = Inr nm \<and>
         heap s' (nextAddr s + j) = Some (bound_module f (i + int j) nm)"
    proof (cases j)
      case 0
      have "heap s' (nextAddr s) = heap s1 (nextAddr s)" by (intro frame) simp
      also have "\<dots> = Some (bound_module f i nm)" by (simp add: s1)
      finally show ?thesis using 0 g f nm by simp
    next
      case (Suc j')
      with j have "j' < k" by simp
      with ih7 obtain g' f' nm' where
        "gn = Some g'" "ff = Some f'"
        "read_lexname (g' (word_of_int (i + 1 + int j')) 100) = Inr nm'"
        "heap s' (nextAddr s1 + j') = Some (bound_module f' (i + 1 + int j') nm')"
        by blast
      moreover have "i + 1 + int j' = i + int j" "nextAddr s1 + j' = nextAddr s + j"
        using Suc a1 by simp_all
      ultimately show ?thesis by metis
    qed
  qed
  from c1 c2 c3 c4 c5 c6 c7 show ?case by blast
qed

lemma discover_total:
  "k = nat (nl - i) \<Longrightarrow>
   (\<forall>j<k. \<exists>nm. read_lexname (g (word_of_int (i + int j)) 100) = Inr nm) \<Longrightarrow>
   \<exists>r. discover (Some g) (Some f) nl i st = Inr r"
proof (induction k arbitrary: i st)
  case 0
  then show ?case by (simp add: discover_stop)
next
  case (Suc k)
  then have lt: "i < nl" by simp
  from Suc.prems(2) obtain nm where nm: "read_lexname (g (word_of_int i) 100) = Inr nm"
    by force
  obtain ms s where st: "st = (ms, s)" by (cases st)
  have k: "k = nat (nl - (i + 1))" using Suc.prems(1) by simp
  have names: "\<forall>j<k. \<exists>nm. read_lexname (g (word_of_int (i + 1 + int j)) 100) = Inr nm"
  proof (intro allI impI)
    fix j assume "j < k"
    then have "Suc j < Suc k" by simp
    with Suc.prems(2) obtain nm' where "read_lexname (g (word_of_int (i + int (Suc j))) 100) = Inr nm'"
      by blast
    moreover have "i + int (Suc j) = i + 1 + int j" by simp
    ultimately show "\<exists>nm. read_lexname (g (word_of_int (i + 1 + int j)) 100) = Inr nm"
      by metis
  qed
  from Suc.IH [OF k names] show ?case
    using lt by (simp add: discover_step st discover_one_Some [of g i nm f, OF nm])
qed

subsection \<open>Clear\<close>

text \<open>
  Claim C8.  \<open>Clear\<close> on a manager that holds no library changes nothing, and a second
  \<open>Clear\<close> right after a first leaves the state of the first.  \<open>Clear\<close> has no faulting
  branch: its result type holds no fault.
\<close>

theorem Clear_empty_idempotent:
  "Clear (\<lparr>libraries = []\<rparr>, s) = (\<lparr>libraries = []\<rparr>, s) \<and> Clear (Clear st) = Clear st"
  by (simp add: Clear_def)

subsection \<open>A path that does not open\<close>

lemma new_LexerLibrary_failed:
  "os P = None \<Longrightarrow> new_LexerLibrary os P s = Inr (failed_library, s)"
  by (simp add: new_LexerLibrary_def failed_library_def)

text \<open>
  Claim C5.  When the path \<open>P\<close> does not open, the constructor returns normally with a
  library that owns no module, and \<open>Load\<close> returns normally with the state outside the
  manager exactly as it was (the Catalogue, every module object and every open native
  library), the libraries held before unchanged and in place, and at most the empty
  library appended.
\<close>

theorem Load_bad_path:
  assumes "os P = None"
  shows "new_LexerLibrary os P s = Inr (failed_library, s) \<and>
         modules failed_library = [] \<and>
         Load os P (m, s) =
           Inr (if already_loaded P (libraries m) then m
                else m\<lparr>libraries := libraries m @ [failed_library]\<rparr>, s)"
  using assms by (simp add: Load_def new_LexerLibrary_failed) (simp add: failed_library_def)

theorem Load_bad_path_witness:
  "no_library ''missing.so'' = None \<and>
   Load no_library ''missing.so''
     (\<lparr>libraries = [\<lparr>lib = Some 0, modules = [0], moduleName = ''abc.so''\<rparr>]\<rparr>, empty_runtime) =
     Inr (\<lparr>libraries = [\<lparr>lib = Some 0, modules = [0], moduleName = ''abc.so''\<rparr>, failed_library]\<rparr>,
          empty_runtime)"
  using Load_bad_path [of no_library "''missing.so''" empty_runtime
     "\<lparr>libraries = [\<lparr>lib = Some 0, modules = [0], moduleName = ''abc.so''\<rparr>]\<rparr>"]
  by (simp add: no_library_def)

subsection \<open>A count that is not positive\<close>

text \<open>
  Claim C10.  When the library opens and its count accessor returns a value that is zero
  or negative, the loop returns the state it was given without running its body (also
  when the other two accessors are null), and the constructed library owns no module;
  the Catalogue, the heap and the log are those of before.
\<close>

theorem nonpositive_count:
  assumes "os P = Some dl" and "GetLexerCount dl = Some nl" and "sint nl \<le> 0"
  shows "discover (GetLexerName dl) (GetLexerFactory dl) (sint nl) 0 st = Inr st \<and>
         new_LexerLibrary os P s =
           Inr (\<lparr>lib = Some (nextHandle s), modules = [], moduleName = P\<rparr>,
                s\<lparr>openHandles := openHandles s @ [nextHandle s], nextHandle := Suc (nextHandle s)\<rparr>)"
  using assms by (simp add: new_LexerLibrary_def Let_def discover_stop)

theorem nonpositive_count_witness:
  "some_libraries ''negative.so'' = Some negative_plugin \<and>
   GetLexerCount negative_plugin = Some (- 1) \<and> sint (- 1 :: 32 word) \<le> 0 \<and>
   new_LexerLibrary some_libraries ''negative.so'' empty_runtime =
     Inr (\<lparr>lib = Some 0, modules = [], moduleName = ''negative.so''\<rparr>,
          empty_runtime\<lparr>openHandles := [0], nextHandle := Suc 0\<rparr>)"
  using nonpositive_count [of some_libraries "''negative.so''" negative_plugin "- 1" _ empty_runtime]
  by (simp add: some_libraries_def negative_plugin_def empty_runtime_def)

subsection \<open>The constructor and Load on a path that opens\<close>

lemma new_LexerLibrary_opened:
  assumes "os P = Some dl"
  shows "new_LexerLibrary os P s =
     (case GetLexerCount dl of
        None \<Rightarrow> Inr (\<lparr>lib = Some (nextHandle s), modules = [], moduleName = P\<rparr>,
                     s\<lparr>openHandles := openHandles s @ [nextHandle s], nextHandle := Suc (nextHandle s)\<rparr>)
      | Some nl \<Rightarrow>
         (case discover (GetLexerName dl) (GetLexerFactory dl) (sint nl) 0
                 ([], s\<lparr>openHandles := openHandles s @ [nextHandle s], nextHandle := Suc (nextHandle s)\<rparr>) of
            Inl e \<Rightarrow> Inl e
          | Inr (ms, s') \<Rightarrow> Inr (\<lparr>lib = Some (nextHandle s), modules = ms, moduleName = P\<rparr>, s')))"
  using assms by (simp add: new_LexerLibrary_def Let_def)

lemma new_LexerLibrary_moduleName:
  "new_LexerLibrary os P s = Inr (ll, s') \<Longrightarrow> os P \<noteq> None \<Longrightarrow> moduleName ll = P"
  by (auto simp: new_LexerLibrary_def Let_def split: option.splits sum.splits)

lemma new_LexerLibrary_Inr:
  assumes "new_LexerLibrary os P s = Inr (ll, s')"
  shows "modules ll = [nextAddr s..<nextAddr s'] \<and>
         events s' = events s @ concat (map (\<lambda>a. [Registered a, FactorySet a]) (modules ll)) \<and>
         lexerCatalogue s' = lexerCatalogue s @ modules ll \<and>
         (\<forall>a. a < nextAddr s \<longrightarrow> heap s' a = heap s a)"
proof (cases "os P")
  case None
  with assms show ?thesis by (auto simp: new_LexerLibrary_failed failed_library_def)
next
  case (Some dl)
  let ?s0 = "s\<lparr>openHandles := openHandles s @ [nextHandle s], nextHandle := Suc (nextHandle s)\<rparr>"
  show ?thesis
  proof (cases "GetLexerCount dl")
    case None
    with assms Some show ?thesis
      by (auto simp: new_LexerLibrary_opened [of os P dl s])
  next
    case nl: (Some nl)
    with assms Some obtain ms where
      d: "discover (GetLexerName dl) (GetLexerFactory dl) (sint nl) 0 ([], ?s0) = Inr (ms, s')"
      and ll: "ll = \<lparr>lib = Some (nextHandle s), modules = ms, moduleName = P\<rparr>"
      by (auto simp: new_LexerLibrary_opened [of os P dl s] split: sum.splits)
    from discover_Inr [OF d refl]
    have "ms = [] @ [nextAddr ?s0..<nextAddr ?s0 + nat (sint nl - 0)]"
      and "nextAddr s' = nextAddr ?s0 + nat (sint nl - 0)"
      and "lexerCatalogue s' = lexerCatalogue ?s0 @ [nextAddr ?s0..<nextAddr ?s0 + nat (sint nl - 0)]"
      and "events s' = events ?s0 @
        concat (map (\<lambda>a. [Registered a, FactorySet a]) [nextAddr ?s0..<nextAddr ?s0 + nat (sint nl - 0)])"
      and "\<forall>a. a < nextAddr ?s0 \<or> nextAddr ?s0 + nat (sint nl - 0) \<le> a \<longrightarrow> heap s' a = heap ?s0 a"
      by blast+
    then show ?thesis by (simp add: ll)
  qed
qed

lemma Load_fresh:
  "\<not> already_loaded P (libraries m) \<Longrightarrow> Load os P (m, s) =
     (case new_LexerLibrary os P s of
        Inl e \<Rightarrow> Inl e
      | Inr (l, s') \<Rightarrow> Inr (m\<lparr>libraries := libraries m @ [l]\<rparr>, s'))"
  by (simp add: Load_def split: sum.splits)

lemma Load_again: "already_loaded P (libraries m) \<Longrightarrow> Load os P (m, s) = Inr (m, s)"
  by (simp add: Load_def)

lemma already_loaded_append:
  "already_loaded P (lls @ [l]) \<longleftrightarrow> already_loaded P lls \<or> moduleName l = P"
  by (auto simp: already_loaded_iff)

lemma retained_for_0: "\<not> already_loaded P (libraries m) \<Longrightarrow> retained_for P m = 0"
  by (auto simp: retained_for_def already_loaded_iff filter_empty_conv)

lemma retained_for_pos: "already_loaded P (libraries m) \<Longrightarrow> 0 < retained_for P m"
  by (auto simp: retained_for_def already_loaded_iff filter_empty_conv)

lemma retained_for_append:
  "retained_for P (m\<lparr>libraries := libraries m @ [l]\<rparr>) =
     retained_for P m + (if moduleName l = P then 1 else 0)"
  by (simp add: retained_for_def)

text \<open>Loading \<open>abc.so\<close> on the empty state, by running the definitions.\<close>

lemma abc_new_LexerLibrary:
  "new_LexerLibrary some_libraries ''abc.so'' empty_runtime = Inr (abc_library, abc_runtime)"
  by (simp add: new_LexerLibrary_def some_libraries_def Let_def
      abc_plugin_def discover.simps discover_one_def
      abc_names_def read_lexname_def NUL_def AddLexerModule_def SetExternal_at_def
      SetExternal_def empty_runtime_def abc_runtime_def abc_library_def bound_module_def
      new_ExternalLexerModule_def abc_factory_def fun_eq_iff)

lemma abc_Load:
  "Load some_libraries ''abc.so'' (empty_manager, empty_runtime) =
     Inr (\<lparr>libraries = [abc_library]\<rparr>, abc_runtime)"
  by (simp add: Load_def abc_new_LexerLibrary empty_manager_def)

subsection \<open>Discovery of three lexers\<close>

lemma less_3_cases: "j < (3::nat) \<Longrightarrow> j = 0 \<or> j = 1 \<or> j = 2"
  by arith

text \<open>
  Claim C4.  Let the library at \<open>P\<close> open, not be loaded yet, export all three accessors,
  return the count 3, and leave the names "Alpha", "Beta" and "Gamma" in the buffer for
  the indices 0, 1 and 2.  Then \<open>Load\<close> returns normally, the Catalogue is the one of
  before with exactly three module addresses appended, the new library owns these three
  modules, and the module at each address is \<open>bound_module gf i nm\<close>: its language is
  \<open>SCLEX_AUTOMATIC\<close>, its name is the one of its index \<open>i\<close> and its \<open>fnFactory\<close> is what the
  factory accessor \<open>gf\<close> returns for \<open>i\<close>.  The modules that existed before are untouched.
\<close>

theorem three_lexers:
  assumes P: "os P = Some dl" and fresh: "\<not> already_loaded P (libraries m)"
    and nl: "GetLexerCount dl = Some 3"
    and gn: "GetLexerName dl = Some gn" and gf: "GetLexerFactory dl = Some gf"
    and n0: "read_lexname (gn 0 100) = Inr ''Alpha''"
    and n1: "read_lexname (gn 1 100) = Inr ''Beta''"
    and n2: "read_lexname (gn 2 100) = Inr ''Gamma''"
  shows "\<exists>s'. Load os P (m, s) =
           Inr (m\<lparr>libraries := libraries m @
                  [\<lparr>lib = Some (nextHandle s),
                    modules = [nextAddr s, nextAddr s + 1, nextAddr s + 2],
                    moduleName = P\<rparr>]\<rparr>, s') \<and>
         lexerCatalogue s' = lexerCatalogue s @ [nextAddr s, nextAddr s + 1, nextAddr s + 2] \<and>
         heap s' (nextAddr s) = Some (bound_module gf 0 ''Alpha'') \<and>
         heap s' (nextAddr s + 1) = Some (bound_module gf 1 ''Beta'') \<and>
         heap s' (nextAddr s + 2) = Some (bound_module gf 2 ''Gamma'') \<and>
         (\<forall>a. a < nextAddr s \<longrightarrow> heap s' a = heap s a)"
proof -
  let ?s0 = "s\<lparr>openHandles := openHandles s @ [nextHandle s], nextHandle := Suc (nextHandle s)\<rparr>"
  have k: "(3::nat) = nat (sint (3 :: 32 word) - 0)" by simp
  have names: "\<forall>j<3. \<exists>nm. read_lexname (gn (word_of_int (0 + int j)) 100) = Inr nm"
    using n0 n1 n2 by (auto dest!: less_3_cases)
  from discover_total [of 3 "sint (3 :: 32 word)" 0 gn gf "([], ?s0)", OF k names] obtain ms s' where
    d: "discover (Some gn) (Some gf) (sint (3 :: 32 word)) 0 ([], ?s0) = Inr (ms, s')"
    by force
  from discover_Inr [OF d k]
  have ms: "ms = [] @ [nextAddr ?s0..<nextAddr ?s0 + 3]"
    and cat: "lexerCatalogue s' = lexerCatalogue ?s0 @ [nextAddr ?s0..<nextAddr ?s0 + 3]"
    and frame: "\<forall>a. a < nextAddr ?s0 \<or> nextAddr ?s0 + 3 \<le> a \<longrightarrow> heap s' a = heap ?s0 a"
    and cells: "\<forall>j<3. \<exists>g f nm. Some gn = Some g \<and> Some gf = Some f \<and>
         read_lexname (g (word_of_int (0 + int j)) 100) = Inr nm \<and>
         heap s' (nextAddr ?s0 + j) = Some (bound_module f (0 + int j) nm)"
    by blast+
  have upt: "[nextAddr s..<nextAddr s + 3] = [nextAddr s, nextAddr s + 1, nextAddr s + 2]"
    by (simp add: upt_rec)
  have h0: "heap s' (nextAddr s) = Some (bound_module gf 0 ''Alpha'')"
    using cells [rule_format, of 0] n0 by auto
  have h1: "heap s' (nextAddr s + 1) = Some (bound_module gf 1 ''Beta'')"
    using cells [rule_format, of 1] n1 by auto
  have h2: "heap s' (nextAddr s + 2) = Some (bound_module gf 2 ''Gamma'')"
    using cells [rule_format, of 2] n2 by auto
  have "new_LexerLibrary os P s =
      Inr (\<lparr>lib = Some (nextHandle s), modules = [nextAddr s, nextAddr s + 1, nextAddr s + 2],
            moduleName = P\<rparr>, s')"
    using d ms upt by (simp add: new_LexerLibrary_opened [of os P dl s, OF P] nl gn gf)
  then have "Load os P (m, s) =
           Inr (m\<lparr>libraries := libraries m @
                  [\<lparr>lib = Some (nextHandle s),
                    modules = [nextAddr s, nextAddr s + 1, nextAddr s + 2],
                    moduleName = P\<rparr>]\<rparr>, s')"
    by (simp add: Load_fresh [OF fresh])
  moreover have "lexerCatalogue s' = lexerCatalogue s @ [nextAddr s, nextAddr s + 1, nextAddr s + 2]"
    using cat upt by simp
  moreover have "\<forall>a. a < nextAddr s \<longrightarrow> heap s' a = heap s a"
    using frame by simp
  ultimately show ?thesis using h0 h1 h2 by blast
qed

theorem three_lexers_witness:
  "\<exists>s'. Load some_libraries ''abc.so'' (empty_manager, empty_runtime) =
           Inr (\<lparr>libraries = [\<lparr>lib = Some 0, modules = [0, 1, 2], moduleName = ''abc.so''\<rparr>]\<rparr>, s') \<and>
         lexerCatalogue s' = [0, 1, 2] \<and>
         heap s' 0 = Some (bound_module abc_factory 0 ''Alpha'') \<and>
         heap s' 1 = Some (bound_module abc_factory 1 ''Beta'') \<and>
         heap s' 2 = Some (bound_module abc_factory 2 ''Gamma'')"
proof -
  have "read_lexname (abc_names 0 100) = Inr ''Alpha''"
       "read_lexname (abc_names 1 100) = Inr ''Beta''"
       "read_lexname (abc_names 2 100) = Inr ''Gamma''"
    by (simp_all add: abc_names_def read_lexname_def Let_def NUL_def)
  from three_lexers [of some_libraries "''abc.so''" abc_plugin empty_manager abc_names abc_factory
      empty_runtime, OF _ _ _ _ _ this]
  show ?thesis
    by (simp add: some_libraries_def abc_plugin_def empty_manager_def empty_runtime_def
        numeral_2_eq_2)
qed

subsection \<open>A name longer than the buffer\<close>

lemma read_lexname_truncating:
  "read_lexname (truncating_name_accessor reported i 100) =
     Inr (takeWhile (\<lambda>c. c \<noteq> NUL) (take 99 (reported i)))"
proof -
  have "takeWhile (\<lambda>c. c \<noteq> NUL) (xs @ NUL # zs) = takeWhile (\<lambda>c. c \<noteq> NUL) xs" for xs zs
    by (induction xs) auto
  then show ?thesis
    by (simp add: read_lexname_def truncating_name_accessor_def Let_def)
qed

text \<open>
  Claim C7.  Let the library at \<open>P\<close> open and export the three accessors, with a name
  accessor that follows the interface of the spec (\<open>truncating_name_accessor\<close>), and let
  the name reported for an index \<open>j\<close> below the count be a C string of more than 100
  characters.  Then the constructor returns normally (in particular without the fault
  \<open>BufferOverrun\<close>), the accessor, called with the capacity 100, stores exactly 100 bytes
  of which the last is the terminating zero, and the name of the \<open>j\<close>-th module is the
  first 99 characters of the reported name, a proper prefix of it.
\<close>

theorem long_name_truncated:
  assumes P: "os P = Some dl" and nl: "GetLexerCount dl = Some nl"
    and gn: "GetLexerName dl = Some (truncating_name_accessor reported)"
    and gf: "GetLexerFactory dl = Some gf"
    and j: "int j < sint nl"
    and long: "100 < length (reported (word_of_nat j))"
    and cstr: "NUL \<notin> set (reported (word_of_nat j))"
  shows "\<exists>ll s' m. new_LexerLibrary os P s = Inr (ll, s') \<and>
           j < length (modules ll) \<and> heap s' (modules ll ! j) = Some m \<and>
           name m = take 99 (reported (word_of_nat j)) \<and> languageName m = name m \<and>
           length (name m) = 99 \<and> strict_prefix (name m) (reported (word_of_nat j)) \<and>
           length (truncating_name_accessor reported (word_of_nat j) 100) = 100 \<and>
           last (truncating_name_accessor reported (word_of_nat j) 100) = NUL"
proof -
  let ?s0 = "s\<lparr>openHandles := openHandles s @ [nextHandle s], nextHandle := Suc (nextHandle s)\<rparr>"
  let ?k = "nat (sint nl - 0)"
  let ?g = "truncating_name_accessor reported"
  have jk: "j < ?k" using j by simp
  have names: "\<forall>j<?k. \<exists>nm. read_lexname (?g (word_of_int (0 + int j)) 100) = Inr nm"
    by (simp add: read_lexname_truncating)
  from discover_total [of ?k "sint nl" 0 ?g gf "([], ?s0)", OF refl names] obtain ms s' where
    d: "discover (Some ?g) (Some gf) (sint nl) 0 ([], ?s0) = Inr (ms, s')"
    by force
  from discover_Inr [OF d refl]
  have ms: "ms = [] @ [nextAddr ?s0..<nextAddr ?s0 + ?k]"
    and cells: "\<forall>j<?k. \<exists>g f nm. Some ?g = Some g \<and> Some gf = Some f \<and>
         read_lexname (g (word_of_int (0 + int j)) 100) = Inr nm \<and>
         heap s' (nextAddr ?s0 + j) = Some (bound_module f (0 + int j) nm)"
    by blast+
  from cells jk obtain nm where
    nm: "read_lexname (?g (word_of_int (0 + int j)) 100) = Inr nm"
    and cell: "heap s' (nextAddr ?s0 + j) = Some (bound_module gf (0 + int j) nm)"
    by auto
  have full: "takeWhile (\<lambda>c. c \<noteq> NUL) (take 99 (reported (word_of_nat j))) =
      take 99 (reported (word_of_nat j))"
    using cstr by (auto dest: in_set_takeD)
  from nm have nm': "nm = take 99 (reported (word_of_nat j))"
    by (simp add: read_lexname_truncating full)
  have lib: "new_LexerLibrary os P s =
      Inr (\<lparr>lib = Some (nextHandle s), modules = ms, moduleName = P\<rparr>, s')"
    using d by (simp add: new_LexerLibrary_opened [of os P dl s, OF P] nl gn gf)
  have idx: "j < length ms" "ms ! j = nextAddr ?s0 + j"
    using jk by (simp_all add: ms)
  have pre: "strict_prefix (take 99 (reported (word_of_nat j))) (reported (word_of_nat j))"
    using long by (auto simp: strict_prefix_def take_is_prefix)
  have written: "length (?g (word_of_nat j) 100) = 100 \<and> last (?g (word_of_nat j) 100) = NUL"
    using long by (simp add: truncating_name_accessor_def)
  show ?thesis
    using lib idx cell nm' pre written long
    by (auto simp: bound_module_def)
qed

theorem long_name_truncated_witness:
  "\<exists>ll s' m. new_LexerLibrary some_libraries ''long.so'' empty_runtime = Inr (ll, s') \<and>
      0 < length (modules ll) \<and> heap s' (modules ll ! 0) = Some m \<and>
      name m = replicate 99 CHR ''x''"
proof -
  have "some_libraries ''long.so'' = Some long_plugin" by (simp add: some_libraries_def)
  from long_name_truncated [of some_libraries "''long.so''" long_plugin 1
      "\<lambda>Index. replicate 150 CHR ''x''" abc_factory 0 empty_runtime, OF this]
  show ?thesis by (simp add: long_plugin_def NUL_def) blast
qed

subsection \<open>A library without the name or the factory accessor\<close>

text \<open>
  Claim C3.  The constructor checks the count accessor for null (line 116) and calls
  the other two unchecked (lines 126 and 99).  A library that exports a count accessor
  returning 1 and no name accessor ends \<open>Load\<close> in a call through a null pointer, and so
  does one that exports the count and name accessors and no factory accessor.
\<close>

theorem missing_accessor_faults:
  "Load some_libraries ''count_only.so'' (empty_manager, empty_runtime) = Inl NullFunctionCall \<and>
   Load some_libraries ''no_factory.so'' (empty_manager, empty_runtime) = Inl NullFunctionCall"
  by (simp add: Load_def empty_manager_def new_LexerLibrary_def some_libraries_def Let_def
      count_only_plugin_def no_factory_plugin_def discover.simps discover_one_def
      abc_names_def read_lexname_def NUL_def AddLexerModule_def SetExternal_at_def
      SetExternal_def empty_runtime_def)

subsection \<open>Loading the same path twice\<close>

text \<open>
  Claim C1, as stated, fails for a path that does not open: after two calls the manager
  holds two libraries, and none of them has the path as its stored name.
\<close>

theorem Load_twice_counterexample:
  "Load no_library ''missing.so'' (empty_manager, empty_runtime) =
     Inr (\<lparr>libraries = [failed_library]\<rparr>, empty_runtime) \<and>
   Load no_library ''missing.so'' (\<lparr>libraries = [failed_library]\<rparr>, empty_runtime) =
     Inr (\<lparr>libraries = [failed_library, failed_library]\<rparr>, empty_runtime) \<and>
   length (libraries \<lparr>libraries = [failed_library, failed_library]\<rparr>) = 2 \<and>
   retained_for ''missing.so'' \<lparr>libraries = [failed_library, failed_library]\<rparr> = 0"
  by (simp add: Load_def new_LexerLibrary_failed no_library_def empty_manager_def retained_for_def)
     (simp add: failed_library_def)

text \<open>
  Claim C1, amended.  Let a first \<open>Load\<close> of \<open>P\<close> return normally.  Then a second one
  returns normally too and the Catalogue offers the same names after it.  When \<open>P\<close>
  opens, the second call changes nothing at all, and the manager holds exactly one
  library with the stored path \<open>P\<close>, provided it held at most one before the first call.
\<close>

theorem Load_twice:
  assumes first: "Load os P (m, s) = Inr (m1, s1)"
  shows "\<exists>m2 s2. Load os P (m1, s1) = Inr (m2, s2) \<and>
           set (registered_names s2) = set (registered_names s1) \<and>
           (os P \<noteq> None \<longrightarrow>
              m2 = m1 \<and> s2 = s1 \<and> (retained_for P m \<le> 1 \<longrightarrow> retained_for P m1 = 1))"
proof (cases "already_loaded P (libraries m)")
  case True
  with first have eq: "m1 = m" "s1 = s" by (simp_all add: Load_again)
  from True have "0 < retained_for P m" by (rule retained_for_pos)
  with True eq show ?thesis by (auto simp: Load_again)
next
  case False
  with first obtain l where l: "new_LexerLibrary os P s = Inr (l, s1)"
    and m1: "m1 = m\<lparr>libraries := libraries m @ [l]\<rparr>"
    by (auto simp: Load_fresh split: sum.splits)
  show ?thesis
  proof (cases "os P")
    case None
    then have "\<exists>m2. Load os P (m1, s1) = Inr (m2, s1)"
      by (cases "already_loaded P (libraries m1)")
         (simp_all add: Load_again Load_fresh new_LexerLibrary_failed)
    with None show ?thesis by auto
  next
    case (Some dl)
    with l have name: "moduleName l = P" by (auto dest: new_LexerLibrary_moduleName)
    then have "already_loaded P (libraries m1)" by (simp add: m1 already_loaded_append)
    then have "Load os P (m1, s1) = Inr (m1, s1)" by (rule Load_again)
    moreover have "retained_for P m1 = 1"
      using False name by (simp add: m1 retained_for_append retained_for_0)
    ultimately show ?thesis by auto
  qed
qed

theorem Load_twice_witness:
  "Load some_libraries ''abc.so'' (empty_manager, empty_runtime) =
     Inr (\<lparr>libraries = [abc_library]\<rparr>, abc_runtime) \<and>
   Load some_libraries ''abc.so'' (\<lparr>libraries = [abc_library]\<rparr>, abc_runtime) =
     Inr (\<lparr>libraries = [abc_library]\<rparr>, abc_runtime) \<and>
   retained_for ''abc.so'' \<lparr>libraries = [abc_library]\<rparr> = 1"
proof -
  from Load_twice [OF abc_Load]
  have "Load some_libraries ''abc.so'' (\<lparr>libraries = [abc_library]\<rparr>, abc_runtime) =
          Inr (\<lparr>libraries = [abc_library]\<rparr>, abc_runtime) \<and>
        retained_for ''abc.so'' \<lparr>libraries = [abc_library]\<rparr> = 1"
    by (simp add: some_libraries_def empty_manager_def retained_for_def)
  with abc_Load show ?thesis by simp
qed

subsection \<open>Loading a path that does not open, again\<close>

text \<open>
  Claim C9, as stated, fails for the empty path: the library a failed open leaves
  behind stores the empty path, which is the requested one, so the second \<open>Load\<close> of the
  empty path finds it and appends nothing.
\<close>

theorem failing_path_counterexample:
  "no_library [] = None \<and>
   Load no_library [] (empty_manager, empty_runtime) =
     Inr (\<lparr>libraries = [failed_library]\<rparr>, empty_runtime) \<and>
   Load no_library [] (\<lparr>libraries = [failed_library]\<rparr>, empty_runtime) =
     Inr (\<lparr>libraries = [failed_library]\<rparr>, empty_runtime)"
  by (simp add: Load_def new_LexerLibrary_failed no_library_def empty_manager_def)
     (simp add: failed_library_def)

text \<open>
  Claim C9, amended.  Let \<open>P\<close> be a path that is not empty and does not open, and let
  the duplicate check not find it, so that the open is attempted.  Then the library
  that \<open>Load\<close> appends stores the empty path, the duplicate check still does not find
  \<open>P\<close> afterwards, and a repeated \<open>Load\<close> of \<open>P\<close> appends one more such library.
\<close>

theorem failing_path_appends_again:
  assumes "os P = None" and "P \<noteq> []" and "\<not> already_loaded P (libraries m)"
  shows "moduleName failed_library = [] \<and>
         Load os P (m, s) = Inr (m\<lparr>libraries := libraries m @ [failed_library]\<rparr>, s) \<and>
         \<not> already_loaded P (libraries m @ [failed_library]) \<and>
         Load os P (m\<lparr>libraries := libraries m @ [failed_library]\<rparr>, s) =
           Inr (m\<lparr>libraries := libraries m @ [failed_library, failed_library]\<rparr>, s)"
proof -
  have name: "moduleName failed_library = []" by (simp add: failed_library_def)
  with assms(2,3) have still: "\<not> already_loaded P (libraries m @ [failed_library])"
    by (auto simp: already_loaded_append)
  have first: "Load os P (m, s) = Inr (m\<lparr>libraries := libraries m @ [failed_library]\<rparr>, s)"
    using assms(1,3) by (simp add: Load_fresh new_LexerLibrary_failed)
  have "Load os P (m\<lparr>libraries := libraries m @ [failed_library]\<rparr>, s) =
      Inr (m\<lparr>libraries := libraries m @ [failed_library, failed_library]\<rparr>, s)"
    using assms(1) still by (simp add: Load_fresh new_LexerLibrary_failed)
  with name still first show ?thesis by blast
qed

theorem failing_path_appends_again_witness:
  "no_library ''missing.so'' = None \<and>
   Load no_library ''missing.so'' (empty_manager, empty_runtime) =
     Inr (\<lparr>libraries = [failed_library]\<rparr>, empty_runtime) \<and>
   Load no_library ''missing.so'' (\<lparr>libraries = [failed_library]\<rparr>, empty_runtime) =
     Inr (\<lparr>libraries = [failed_library, failed_library]\<rparr>, empty_runtime)"
  using failing_path_appends_again [of no_library "''missing.so''" empty_manager empty_runtime]
  by (simp add: no_library_def empty_manager_def)

subsection \<open>When the factory of a module is set\<close>

lemma count_list_distinct: "distinct xs \<Longrightarrow> x \<in> set xs \<Longrightarrow> count_list xs x = 1"
  by (induction xs) auto

lemma count_FactorySet:
  "count_list (concat (map (\<lambda>a. [Registered a, FactorySet a]) as)) (FactorySet a) = count_list as a"
  by (induction as) auto

lemma Registered_first:
  "a \<in> set as \<Longrightarrow>
   Registered a \<in> set (takeWhile (\<lambda>e. e \<noteq> FactorySet a)
     (concat (map (\<lambda>a. [Registered a, FactorySet a]) as)))"
  by (induction as) auto

lemma FactorySet_not_first:
  "FactorySet a \<notin> set (takeWhile (\<lambda>e. e \<noteq> Registered a)
     (concat (map (\<lambda>a. [Registered a, FactorySet a]) as)))"
  by (induction as) auto

text \<open>
  Claim C2, as stated, fails: line 130 registers the module with the Catalogue and
  line 137 sets its factory afterwards.  For \<open>abc.so\<close> the log of the construction shows
  \<open>Registered 0\<close> before \<open>FactorySet 0\<close>.
\<close>

theorem factory_set_before_registered_counterexample:
  "new_LexerLibrary some_libraries ''abc.so'' empty_runtime = Inr (abc_library, abc_runtime) \<and>
   modules abc_library = [0, 1, 2] \<and>
   events abc_runtime =
     [Registered 0, FactorySet 0, Registered 1, FactorySet 1, Registered 2, FactorySet 2] \<and>
   \<not> happens_before (FactorySet 0) (Registered 0) (events abc_runtime)"
  by (simp add: abc_new_LexerLibrary) (simp add: abc_library_def abc_runtime_def happens_before_def)

text \<open>
  Claim C2, amended.  When the construction of a library returns normally, the events
  it adds to the log hold, for every module the library owns, exactly one \<open>FactorySet\<close>,
  and that one after the module's \<open>Registered\<close>, not before it: the factory of a module is
  set once, during the construction of the owning library, after the module has been
  registered with the Catalogue.
\<close>

theorem factory_set_once_after_registered:
  assumes "new_LexerLibrary os P s = Inr (ll, s')"
  shows "\<exists>new. events s' = events s @ new \<and>
           (\<forall>a \<in> set (modules ll).
              count_list new (FactorySet a) = 1 \<and>
              happens_before (Registered a) (FactorySet a) new \<and>
              \<not> happens_before (FactorySet a) (Registered a) new)"
proof -
  let ?new = "concat (map (\<lambda>a. [Registered a, FactorySet a]) (modules ll))"
  from new_LexerLibrary_Inr [OF assms]
  have ms: "modules ll = [nextAddr s..<nextAddr s']" and ev: "events s' = events s @ ?new"
    by blast+
  have "count_list ?new (FactorySet a) = 1 \<and>
        happens_before (Registered a) (FactorySet a) ?new \<and>
        \<not> happens_before (FactorySet a) (Registered a) ?new" if a: "a \<in> set (modules ll)" for a
  proof -
    have "distinct (modules ll)" by (simp add: ms)
    with a have "count_list (modules ll) a = 1" by (simp add: count_list_distinct)
    then have c: "count_list ?new (FactorySet a) = 1" by (simp add: count_FactorySet)
    then have "FactorySet a \<in> set ?new" by (metis count_list_0_iff zero_neq_one)
    with Registered_first [OF a] FactorySet_not_first [of a "modules ll"] c
    show ?thesis by (simp add: happens_before_def)
  qed
  with ev show ?thesis by blast
qed

theorem factory_set_once_after_registered_witness:
  "new_LexerLibrary some_libraries ''abc.so'' empty_runtime = Inr (abc_library, abc_runtime) \<and>
   events abc_runtime = events empty_runtime @
     [Registered 0, FactorySet 0, Registered 1, FactorySet 1, Registered 2, FactorySet 2] \<and>
   happens_before (Registered 1) (FactorySet 1) (events abc_runtime)"
  using factory_set_once_after_registered [OF abc_new_LexerLibrary]
  by (simp add: abc_new_LexerLibrary)
     (simp add: abc_runtime_def empty_runtime_def happens_before_def)

subsection \<open>Teardown\<close>

lemma fold_delete_module:
  "heap (fold delete_module as s) a = (if a \<in> set as then None else heap s a) \<and>
   openHandles (fold delete_module as s) = openHandles s \<and>
   lexerCatalogue (fold delete_module as s) = lexerCatalogue s"
  by (induction as arbitrary: s) (auto simp: delete_module_def)

lemma delete_LexerLibrary_effect:
  "heap (delete_LexerLibrary ll s) a = (if a \<in> set (modules ll) then None else heap s a) \<and>
   set (openHandles (delete_LexerLibrary ll s)) = set (openHandles s) - {h. lib ll = Some h} \<and>
   lexerCatalogue (delete_LexerLibrary ll s) = lexerCatalogue s"
  by (cases "lib ll")
     (simp_all add: delete_LexerLibrary_def delete_DynamicLibrary_def fold_delete_module)

lemma fold_delete_LexerLibrary:
  "heap (fold delete_LexerLibrary lls s) a =
     (if \<exists>ll \<in> set lls. a \<in> set (modules ll) then None else heap s a) \<and>
   set (openHandles (fold delete_LexerLibrary lls s)) =
     set (openHandles s) - {h. \<exists>ll \<in> set lls. lib ll = Some h} \<and>
   lexerCatalogue (fold delete_LexerLibrary lls s) = lexerCatalogue s"
proof (induction lls arbitrary: s)
  case Nil
  show ?case by simp
next
  case (Cons ll lls)
  show ?case
    by (simp add: Cons.IH delete_LexerLibrary_effect, blast)
qed

text \<open>
  What \<open>Clear\<close> does in general: the manager holds no library afterwards, every module
  that a library of the manager owned is gone from the heap, no native library that a
  library of the manager held is open any more, and the Catalogue is the one of before.
\<close>

lemma Clear_effect:
  "libraries (fst (Clear (m, s))) = [] \<and>
   lexerCatalogue (snd (Clear (m, s))) = lexerCatalogue s \<and>
   (\<forall>ll \<in> set (libraries m).
      (\<forall>a \<in> set (modules ll). heap (snd (Clear (m, s))) a = None) \<and>
      (\<forall>h. lib ll = Some h \<longrightarrow> h \<notin> set (openHandles (snd (Clear (m, s))))))"
proof -
  have "heap (snd (Clear (m, s))) a = None"
    if "ll \<in> set (libraries m)" and "a \<in> set (modules ll)" for ll a
    using that by (auto simp: Clear_def fold_delete_LexerLibrary)
  moreover have "h \<notin> set (openHandles (snd (Clear (m, s))))"
    if "ll \<in> set (libraries m)" and "lib ll = Some h" for ll h
    using that by (auto simp: Clear_def fold_delete_LexerLibrary)
  moreover have "libraries (fst (Clear (m, s))) = []"
    "lexerCatalogue (snd (Clear (m, s))) = lexerCatalogue s"
    by (simp_all add: Clear_def fold_delete_LexerLibrary)
  ultimately show ?thesis by blast
qed

lemma abc_Clear:
  "Clear (\<lparr>libraries = [abc_library]\<rparr>, abc_runtime) = (\<lparr>libraries = []\<rparr>, abc_cleared)"
  by (simp add: Clear_def delete_LexerLibrary_def delete_DynamicLibrary_def delete_module_def
      abc_library_def abc_runtime_def abc_cleared_def fun_eq_iff)

text \<open>
  Claim C6.  The modules are destroyed and the native library is released, but nothing
  takes the pointers out of the Catalogue: the constructor stores a second reference
  there (lines 128-130, with the remark that allocation safety is still to be ensured),
  and neither the destructor of the library (lines 143-144) nor \<open>Clear\<close> (lines 181-183)
  touches the Catalogue.  After \<open>ExternalLexerLoad\<close> of \<open>abc.so\<close> and the destructor of the
  minder, and likewise after \<open>Clear\<close>, the manager is gone, no native library is open, no
  module is left on the heap, and the Catalogue still lists the three addresses: each
  of the three capabilities is still offered, through a pointer to a destroyed module.
\<close>

theorem teardown_leaves_dangling_entries:
  "ExternalLexerLoad some_libraries ''abc.so'' \<lparr>theInstance = None, globals = empty_runtime\<rparr> =
     Inr abc_process \<and>
   delete_LMMinder abc_process = \<lparr>theInstance = None, globals = abc_cleared\<rparr> \<and>
   Clear (\<lparr>libraries = [abc_library]\<rparr>, abc_runtime) = (\<lparr>libraries = []\<rparr>, abc_cleared) \<and>
   openHandles abc_cleared = [] \<and>
   lexerCatalogue abc_cleared = [0, 1, 2] \<and>
   dangling abc_cleared 0 \<and> dangling abc_cleared 1 \<and> dangling abc_cleared 2"
proof -
  have "ExternalLexerLoad some_libraries ''abc.so'' \<lparr>theInstance = None, globals = empty_runtime\<rparr> =
      Inr abc_process"
    using abc_Load by (simp add: ExternalLexerLoad_def GetInstance_def abc_process_def empty_manager_def)
  moreover have "delete_LMMinder abc_process = \<lparr>theInstance = None, globals = abc_cleared\<rparr>"
    by (simp add: delete_LMMinder_def DeleteInstance_def abc_process_def abc_Clear)
  moreover have "openHandles abc_cleared = [] \<and> lexerCatalogue abc_cleared = [0, 1, 2] \<and>
      dangling abc_cleared 0 \<and> dangling abc_cleared 1 \<and> dangling abc_cleared 2"
    by (simp add: abc_cleared_def dangling_def)
  ultimately show ?thesis using abc_Clear by simp
qed

end
